theory Spec2Isabelle
  imports Main "HOL-Library.Signed_Division"
begin

section \<open>Positions, origins and references\<close>

text \<open>
  Modelled from the spec: the declarations of \<open>file_t\<close>, \<open>filePosition\<close> and \<open>fileOrigin\<close>
  live in \<open>occa/lang/file.hpp\<close>, which is not among the sources at hand. The spec gives a
  position as a file identity, a byte range \<open>[start, end)\<close>, a line number and a pointer to
  the start of the line's text, and an origin as a position with an optional parent origin.
  Pointers (\<open>file_t*\<close>, \<open>const char*\<close>, \<open>fileOrigin*\<close>) are addresses, with 0 for the null
  pointer. Only the members that \<open>codes.cpp\<close> reads appear below.
\<close>

type_synonym ptr = nat

record filePosition =
  line :: int
  lineStart :: ptr
  start :: ptr
  "end" :: ptr

record fileOrigin =
  "file" :: ptr
  position :: filePosition
  up :: ptr

text \<open>
  Modelled from the spec: \<open>fileOrigin::isValid\<close>, \<open>fileOrigin::onSameLine\<close> and
  \<open>fileOrigin::distanceTo\<close> are defined outside the sources at hand. The functions of
  \<open>codes.cpp\<close> below take them as parameters, so every theorem holds whatever they compute.
  The three definitions here follow the words of the spec and serve as concrete instances:
  an origin is present when it names a file; two origins share a line when their line
  numbers agree; \<open>a.distanceTo(b)\<close> is positive when \<open>b\<close> lies before \<open>a\<close>.
\<close>

definition isValid :: "fileOrigin \<Rightarrow> bool" where
  "isValid a = (file a \<noteq> 0)"

definition onSameLine :: "fileOrigin \<Rightarrow> fileOrigin \<Rightarrow> bool" where
  "onSameLine a b = (line (position a) = line (position b))"

definition distanceTo :: "fileOrigin \<Rightarrow> fileOrigin \<Rightarrow> int" where
  "distanceTo a b = int (start (position a)) - int (start (position b))"

text \<open>
  \<open>class codeSource_t\<close>. The C++ \<open>int\<close> members and counters are modelled as
  mathematical integers: signed overflow is undefined in C++, and no counter of this file
  leaves the 32-bit range before \<open>2^31\<close> references have been collected.
\<close>

record codeSource_t =
  index :: int
  origin :: fileOrigin
  message :: string

text \<open>The two constructors and \<open>withIndex\<close>.\<close>

definition codeSource_t_new :: "fileOrigin \<Rightarrow> string \<Rightarrow> codeSource_t" where
  "codeSource_t_new origin' message' = \<lparr>index = - 1, origin = origin', message = message'\<rparr>"

definition codeSource_t_indexed :: "int \<Rightarrow> fileOrigin \<Rightarrow> string \<Rightarrow> codeSource_t" where
  "codeSource_t_indexed index' origin' message' =
     \<lparr>index = index', origin = origin', message = message'\<rparr>"

definition withIndex :: "codeSource_t \<Rightarrow> int \<Rightarrow> codeSource_t" where
  "withIndex s index' = codeSource_t_indexed index' (origin s) (message s)"

text \<open>
  \<open>bool operator < (const codeSource_t &a, const codeSource_t &b)\<close>. The body returns the
  integers \<open>-1\<close>, \<open>1\<close> and \<open>0\<close>; \<open>less_value\<close> is the returned expression and
  \<open>less_codeSource_t\<close> its conversion to the declared result type \<open>bool\<close>, which maps
  every non-zero integer to \<open>true\<close>.
\<close>

definition less_value :: "codeSource_t \<Rightarrow> codeSource_t \<Rightarrow> int" where
  "less_value a b =
     (let ao = origin a; bo = origin b in
      if file ao = file bo then
        (if start (position ao) < start (position bo) then - 1
         else if start (position ao) > start (position bo) then 1
         else if index a < index b then - 1
         else if index a > index b then 1
         else 0)
      else
        (if file ao < file bo then - 1
         else if file ao > file bo then 1
         else 0))"

definition less_codeSource_t :: "codeSource_t \<Rightarrow> codeSource_t \<Rightarrow> bool" where
  "less_codeSource_t a b = (less_value a b \<noteq> 0)"

text \<open>
  The order the spec describes, in its own words: primary key file identity, secondary key
  position start offset, tertiary key insertion index.
\<close>

definition spec_before :: "codeSource_t \<Rightarrow> codeSource_t \<Rightarrow> bool" where
  "spec_before a b =
     (file (origin a) < file (origin b) \<or>
      (file (origin a) = file (origin b) \<and>
       (start (position (origin a)) < start (position (origin b)) \<or>
        (start (position (origin a)) = start (position (origin b)) \<and> index a < index b))))"

section \<open>Containers\<close>

text \<open>
  \<open>std::set<codeSource_t>\<close> is the list of its elements in iteration order, and
  \<open>insert\<close> is the ordered insertion under \<open>operator <\<close>: the new element goes before the
  first element it is less than, and is dropped when an element is equivalent to it (neither
  less than the other). For a strict weak order this is the set's contract. For the
  comparison above the contract says nothing; on elements with pairwise different keys,
  where every comparison is true, the red-black trees of libstdc++ and libc++ descend left at
  every node and link the new element as the first one, which is what this insertion does.
\<close>

type_synonym codeSourceSet = "codeSource_t list"

fun set_insert :: "codeSource_t \<Rightarrow> codeSourceSet \<Rightarrow> codeSourceSet" where
  "set_insert x [] = [x]"
| "set_insert x (y # ys) =
     (if less_codeSource_t x y then x # y # ys
      else if less_codeSource_t y x then y # set_insert x ys
      else y # ys)"

text \<open>
  \<open>std::map<file_t*, codeSourceSet>\<close> is the list of its entries in iteration order, that
  is by ascending file pointer. \<open>map_modify f g m\<close> is \<open>m[f] = g(m[f])\<close>: as
  \<open>operator[]\<close> does, it creates an empty bucket when the key is missing. \<open>map_find\<close> reads
  the bucket of a key.
\<close>

type_synonym fileCodeSourceMap = "(ptr \<times> codeSourceSet) list"

fun map_modify ::
  "ptr \<Rightarrow> (codeSourceSet \<Rightarrow> codeSourceSet) \<Rightarrow> fileCodeSourceMap \<Rightarrow> fileCodeSourceMap" where
  "map_modify f g [] = [(f, g [])]"
| "map_modify f g ((k, b) # m) =
     (if f < k then (f, g []) # (k, b) # m
      else if k < f then (k, b) # map_modify f g m
      else (k, g b) # m)"

definition map_find :: "ptr \<Rightarrow> fileCodeSourceMap \<Rightarrow> codeSourceSet" where
  "map_find f m = (case map_of m f of None \<Rightarrow> [] | Some b \<Rightarrow> b)"

definition total_sources :: "fileCodeSourceMap \<Rightarrow> nat" where
  "total_sources m = sum_list (map (\<lambda>e. length (snd e)) m)"


section \<open>The report builder\<close>

text \<open>
  \<open>class codePrinter_t\<close>. The output stream \<open>out\<close> is not a field of the model: \<open>print\<close>
  returns what it hands to the sink.
\<close>

record codePrinter_t =
  isError :: bool
  code :: string
  origin :: fileOrigin
  message :: string
  originLineSources :: codeSourceSet
  sources :: fileCodeSourceMap
  sourceIndex :: int

text \<open>
  The constructor. It default-constructs the origin and the message; the default
  \<open>fileOrigin\<close> is declared outside the sources and is a parameter.
\<close>

definition codePrinter_t_new :: "fileOrigin \<Rightarrow> bool \<Rightarrow> string \<Rightarrow> codePrinter_t" where
  "codePrinter_t_new initial isError' code' =
     \<lparr>isError = isError', code = code', origin = initial, message = [],
      originLineSources = [], sources = [], sourceIndex = 0\<rparr>"

definition withMessage :: "codePrinter_t \<Rightarrow> fileOrigin \<Rightarrow> string \<Rightarrow> codePrinter_t" where
  "withMessage p origin' message' = p\<lparr>origin := origin', message := message'\<rparr>"

definition withSource ::
  "(fileOrigin \<Rightarrow> fileOrigin \<Rightarrow> bool) \<Rightarrow> codePrinter_t \<Rightarrow> codeSource_t \<Rightarrow> codePrinter_t" where
  "withSource sameLine p source =
     (if file (codeSource_t.origin source) = file (origin p) \<and>
         sameLine (codeSource_t.origin source) (origin p)
      then p\<lparr>originLineSources :=
               set_insert (withIndex source (sourceIndex p)) (originLineSources p),
             sourceIndex := sourceIndex p + 1\<rparr>
      else p\<lparr>sources :=
               map_modify (file (codeSource_t.origin source))
                 (set_insert (withIndex source (sourceIndex p))) (sources p),
             sourceIndex := sourceIndex p + 1\<rparr>)"

definition withSource_origin ::
  "(fileOrigin \<Rightarrow> fileOrigin \<Rightarrow> bool) \<Rightarrow> codePrinter_t \<Rightarrow> fileOrigin \<Rightarrow> string \<Rightarrow> codePrinter_t"
  where
  "withSource_origin sameLine p origin' message' =
     withSource sameLine p (codeSource_t_new origin' message')"

section \<open>Suppression\<close>

text \<open>
  What can stop a call short. \<open>OCCA_ERROR\<close> throws when its condition is false, with the
  message built from its first argument; \<open>std::string(padding, ' ')\<close> throws
  \<open>std::length_error\<close> when the \<open>int\<close> padding is negative, since the count is converted
  to an unsigned size. \<open>ErasedIterator\<close> is no exception: it marks the point where
  \<open>supressSources\<close> goes on using a map iterator whose node it has erased, from which
  point C++ leaves the behaviour of the program undefined.
\<close>

datatype error = OccaError string | LengthError | ErasedIterator

text \<open>
  \<open>const int DEFAULT_MAX_ERRORS_DISPLAYED = 5\<close> and \<open>codePrinter_t::supressSources\<close>.
  The loop walks the map from \<open>sources.begin()\<close>; \<open>supress_loop\<close> takes the two
  locals and the entries from the current one on, and returns the count together with what
  is left of those entries. The cast \<open>(int) fileSources.size()\<close> is the length of the
  bucket. At the top of the body \<open>++it\<close> has already moved the iterator to the entry after
  the current one. In the truncating branch \<open>sources.erase(it, sources.end())\<close> erases
  from that entry on. When the current entry is the last one, \<open>it\<close> is
  \<open>sources.end()\<close>, nothing is erased and the loop test ends the loop. When entries
  follow, the node \<open>it\<close> points to is erased, and the loop test and the next round of the
  body use the erased iterator: the result is \<open>ErasedIterator\<close>. The last branch of the
  source can never run, since the two tests before it are complementary; it is kept as
  written.
\<close>

definition DEFAULT_MAX_ERRORS_DISPLAYED :: int where
  "DEFAULT_MAX_ERRORS_DISPLAYED = 5"

fun supress_loop ::
  "int \<Rightarrow> int \<Rightarrow> fileCodeSourceMap \<Rightarrow> error + int \<times> fileCodeSourceMap" where
  "supress_loop supressedCount sourcesAvailable [] = Inr (supressedCount, [])"
| "supress_loop supressedCount sourcesAvailable ((f, fileSources) # rest) =
     (let fileSourceCount = int (length fileSources) in
      if sourcesAvailable \<ge> fileSourceCount then
        (case supress_loop supressedCount (sourcesAvailable - fileSourceCount) rest of
           Inl e \<Rightarrow> Inl e
         | Inr (c, kept) \<Rightarrow> Inr (c, (f, fileSources) # kept))
      else if sourcesAvailable < fileSourceCount then
        (if rest = []
         then Inr (fileSourceCount - sourcesAvailable,
                   [(f, take (nat sourcesAvailable) fileSources)])
         else Inl ErasedIterator)
      else
        (case supress_loop (supressedCount + fileSourceCount) sourcesAvailable rest of
           Inl e \<Rightarrow> Inl e
         | Inr (c, kept) \<Rightarrow> Inr (c, (f, fileSources) # kept)))"

definition supressSources :: "codePrinter_t \<Rightarrow> error + int \<times> codePrinter_t" where
  "supressSources p =
     (case supress_loop 0 DEFAULT_MAX_ERRORS_DISPLAYED (sources p) of
        Inl e \<Rightarrow> Inl e
      | Inr (supressedCount, kept) \<Rightarrow> Inr (supressedCount, p\<lparr>sources := kept\<rparr>))"

section \<open>Footer and sidebar\<close>

text \<open>
  \<open>ss << supressedCount\<close> writes an \<open>int\<close> in decimal, with a minus sign when negative.
  \<open>digit_char\<close> is only ever applied to a number below ten.
\<close>

definition digit_char :: "nat \<Rightarrow> char" where
  "digit_char d = ''0123456789'' ! d"

fun show_nat :: "nat \<Rightarrow> string" where
  "show_nat n =
     (if n < 10 then [digit_char n]
      else show_nat (n div 10) @ [digit_char (n mod 10)])"

declare show_nat.simps [simp del]

definition show_int :: "int \<Rightarrow> string" where
  "show_int i = (if i < 0 then CHR ''-'' # show_nat (nat (- i)) else show_nat (nat i))"

text \<open>
  \<open>codePrinter_t::getSupressedMessage\<close>. \<open>yellow\<close> belongs to the text styling outside
  the sources and is a parameter.
\<close>

definition getSupressedMessage :: "(string \<Rightarrow> string) \<Rightarrow> codePrinter_t \<Rightarrow> int \<Rightarrow> string" where
  "getSupressedMessage yellow p supressedCount =
     (if supressedCount \<le> 0 then []
      else yellow (''Supressed '' @ show_int supressedCount @ '' additional '' @
             (if supressedCount > 1
              then (if isError p then ''errors'' else ''warnings'')
              else (if isError p then ''error'' else ''warning''))))"

text \<open>
  \<open>codePrinter_t::getSidebarWidth\<close>. C++ integer division truncates towards zero, which is
  \<open>sdiv\<close>; \<open>sidebar_loop\<close> is the \<open>while (line)\<close> loop on the locals \<open>width\<close> and
  \<open>line\<close>.
\<close>

function sidebar_loop :: "int \<Rightarrow> int \<Rightarrow> int" where
  "sidebar_loop width l = (if l \<noteq> 0 then sidebar_loop (width + 1) (l sdiv 10) else width)"
  by pat_completeness auto
termination
  by (relation "measure (\<lambda>(width, l). nat \<bar>l\<bar>)")
     (auto simp: signed_divide_int_def abs_mult sgn_if)

declare sidebar_loop.simps [simp del]

definition getSidebarWidth :: "int \<Rightarrow> int" where
  "getSidebarWidth maxLine = sidebar_loop 3 (maxLine sdiv 10)"

section \<open>Rendering\<close>

text \<open>
  A rendered string is a list of pieces. Literal text is \<open>Str\<close>. \<open>Stack u\<close> stands for
  what \<open>origin.up->printStack\<close> writes for the parent at \<open>u\<close>, and
  \<open>FileSection f s w n\<close> for what \<open>addFileSection\<close> writes for the non-empty reference
  set \<open>s\<close> of file \<open>f\<close> with sidebar width \<open>w\<close> and filename flag \<open>n\<close>: its
  line-by-line text is produced by \<open>addSourceLineMessages(ss, first, last)\<close>, which the
  sources declare nowhere. A \<open>strVector\<close> is a list of rendered strings.
\<close>

datatype piece = Str string | Stack ptr | FileSection ptr codeSourceSet int bool

type_synonym strVector = "piece list list"

definition addDivider :: "string \<Rightarrow> int \<Rightarrow> error + piece list" where
  "addDivider divider sidebarWidth =
     (let padding = sidebarWidth - int (length divider div 2) in
      if padding < 0 then Inl LengthError
      else Inr [Str (replicate (nat padding) CHR '' ''), Str divider])"

definition addFileSection :: "ptr \<Rightarrow> codeSourceSet \<Rightarrow> int \<Rightarrow> bool \<Rightarrow> piece list" where
  "addFileSection f fileSources sidebarWidth addFilename =
     (if fileSources = [] then []
      else [FileSection f fileSources
              (if sidebarWidth < 0
               then getSidebarWidth (line (position (codeSource_t.origin (last fileSources))))
               else sidebarWidth)
              addFilename])"

text \<open>
  The first loop of \<open>codePrinter_t::addOriginFileSection\<close>, on the locals
  \<open>originIsFirstSource\<close> and \<open>maxLine\<close>.
\<close>

fun scanFileSources ::
  "(fileOrigin \<Rightarrow> fileOrigin \<Rightarrow> bool) \<Rightarrow> (fileOrigin \<Rightarrow> fileOrigin \<Rightarrow> int) \<Rightarrow> fileOrigin \<Rightarrow>
   bool \<Rightarrow> int \<Rightarrow> codeSourceSet \<Rightarrow> bool \<times> int" where
  "scanFileSources sameLine dist org originIsFirstSource maxLine [] =
     (originIsFirstSource, maxLine)"
| "scanFileSources sameLine dist org originIsFirstSource maxLine (source # rest) =
     scanFileSources sameLine dist org
       (if \<not> sameLine (codeSource_t.origin source) org \<and> dist org (codeSource_t.origin source) > 0
        then False else originIsFirstSource)
       (if maxLine < line (position (codeSource_t.origin source))
        then line (position (codeSource_t.origin source)) else maxLine)
       rest"

text \<open>
  \<open>codePrinter_t::addOriginFileSection\<close>. \<open>sources[origin.file]\<close> creates the bucket of
  the origin's file when the map has none, so the printer is returned as well.
\<close>

definition addOriginFileSection ::
  "(fileOrigin \<Rightarrow> fileOrigin \<Rightarrow> bool) \<Rightarrow> (fileOrigin \<Rightarrow> fileOrigin \<Rightarrow> int) \<Rightarrow>
   codePrinter_t \<Rightarrow> strVector \<Rightarrow> (error + strVector) \<times> codePrinter_t" where
  "addOriginFileSection sameLine dist p sections =
     (let p1 = p\<lparr>sources := map_modify (file (origin p)) id (sources p)\<rparr>;
          fileSources = map_find (file (origin p)) (sources p1);
          scanned = scanFileSources sameLine dist (origin p) True
                      (line (position (origin p))) fileSources;
          originIsFirstSource = fst scanned;
          maxLine = snd scanned;
          stack = (if up (origin p) \<noteq> 0 then [Stack (up (origin p))] else []);
          sidebarWidth = getSidebarWidth maxLine;
          hasOriginSources = (originLineSources p \<noteq> []);
          hasFileSources = (fileSources \<noteq> []);
          needsDivider = (\<not> originIsFirstSource \<and> hasOriginSources \<and> hasFileSources);
          originPart =
            (if hasOriginSources
             then Str [CHR 0x0A] #
                  addFileSection (file (origin p)) (originLineSources p) sidebarWidth True
             else []);
          filePart =
            (if hasFileSources
             then (if needsDivider then [Str [CHR 0x0A]] else []) @
                  addFileSection (file (origin p)) fileSources sidebarWidth False
             else [])
      in if needsDivider then
           (case addDivider ''^^^'' sidebarWidth of
              Inl e \<Rightarrow> (Inl e, p1)
            | Inr divider \<Rightarrow>
                (Inr (sections @ [stack @ originPart @ Str [CHR 0x0A] # divider @ filePart]), p1))
         else (Inr (sections @ [stack @ originPart @ filePart]), p1))"

text \<open>
  \<open>codePrinter_t::addSourceSections\<close>: the origin file's section, then one section for
  each entry of the map whose file is not the origin's.
\<close>

fun otherFileSections :: "ptr \<Rightarrow> fileCodeSourceMap \<Rightarrow> strVector" where
  "otherFileSections originFile [] = []"
| "otherFileSections originFile ((f, fileSources) # rest) =
     (if f \<noteq> originFile then [addFileSection f fileSources (- 1) True] else []) @
     otherFileSections originFile rest"

definition addSourceSections ::
  "(fileOrigin \<Rightarrow> fileOrigin \<Rightarrow> bool) \<Rightarrow> (fileOrigin \<Rightarrow> fileOrigin \<Rightarrow> int) \<Rightarrow>
   codePrinter_t \<Rightarrow> strVector \<Rightarrow> (error + strVector) \<times> codePrinter_t" where
  "addSourceSections sameLine dist p sections =
     (case addOriginFileSection sameLine dist p sections of
        (Inl e, p1) \<Rightarrow> (Inl e, p1)
      | (Inr sections1, p1) \<Rightarrow>
          (Inr (sections1 @ otherFileSections (file (origin p1)) (sources p1)), p1))"

text \<open>
  \<open>codePrinter_t::print\<close>. \<open>occa::printError\<close> and \<open>occa::printWarning\<close> are the
  sinks outside the sources; the result records which one is called and with what. The
  second component is the report after the call; when the suppression step ends in
  \<open>ErasedIterator\<close> no state of the report is defined any more, and the component is the
  report as it was given.
\<close>

datatype emitted = PrintError string string strVector | PrintWarning string string strVector

definition print ::
  "(fileOrigin \<Rightarrow> bool) \<Rightarrow> (fileOrigin \<Rightarrow> fileOrigin \<Rightarrow> bool) \<Rightarrow>
   (fileOrigin \<Rightarrow> fileOrigin \<Rightarrow> int) \<Rightarrow> (string \<Rightarrow> string) \<Rightarrow>
   codePrinter_t \<Rightarrow> (error + emitted) \<times> codePrinter_t" where
  "print valid sameLine dist yellow p =
     (if \<not> valid (origin p)
      then (Inl (OccaError ((if isError p then ''Error'' else ''Warning'') @
                            '' code is missing its origin'')), p)
      else
        (case supressSources p of
           Inl e \<Rightarrow> (Inl e, p)
         | Inr (supressedCount, p1) \<Rightarrow>
             (case addSourceSections sameLine dist p1 [] of
                (Inl e, p2) \<Rightarrow> (Inl e, p2)
              | (Inr sections, p2) \<Rightarrow>
                  (let sections1 = sections @ [[Str (getSupressedMessage yellow p2 supressedCount)]]
                   in (Inr (if isError p2
                            then PrintError (message p2) (code p2) sections1
                            else PrintWarning (message p2) (code p2) sections1), p2)))))"

section \<open>Sequences of builder calls\<close>

text \<open>
  A report is built by the constructor followed by calls of \<open>withMessage\<close> and
  \<open>withSource\<close> in any order; \<open>run\<close> performs a list of such calls.
\<close>

datatype operation = WithMessage fileOrigin string | WithSource codeSource_t

fun apply_operation ::
  "(fileOrigin \<Rightarrow> fileOrigin \<Rightarrow> bool) \<Rightarrow> codePrinter_t \<Rightarrow> operation \<Rightarrow> codePrinter_t" where
  "apply_operation sameLine p (WithMessage origin' message') = withMessage p origin' message'"
| "apply_operation sameLine p (WithSource source) = withSource sameLine p source"

definition run ::
  "(fileOrigin \<Rightarrow> fileOrigin \<Rightarrow> bool) \<Rightarrow> codePrinter_t \<Rightarrow> operation list \<Rightarrow> codePrinter_t" where
  "run sameLine p ops = foldl (apply_operation sameLine) p ops"

text \<open>
  The reference set that \<open>sources[origin.file]\<close> yields in \<open>addOriginFileSection\<close>: the
  bucket of the primary origin's file, empty when the map had none. \<open>emitted_sections\<close>
  reads the sections handed to the sink.
\<close>

definition originFileSources :: "codePrinter_t \<Rightarrow> codeSourceSet" where
  "originFileSources p =
     map_find (file (origin p)) (map_modify (file (origin p)) id (sources p))"

definition emitted_sections :: "emitted \<Rightarrow> strVector" where
  "emitted_sections out = (case out of PrintError m c s \<Rightarrow> s | PrintWarning m c s \<Rightarrow> s)"

text \<open>
  The references a rendered string shows: those of its file sections, in order.
\<close>

fun piece_sources :: "piece \<Rightarrow> codeSource_t list" where
  "piece_sources (FileSection f s w n) = s"
| "piece_sources (Str t) = []"
| "piece_sources (Stack u) = []"

definition rendered_sources :: "piece list \<Rightarrow> codeSource_t list" where
  "rendered_sources ps = concat (map piece_sources ps)"

text \<open>
  A \<open>std::map\<close> holds each key once and iterates in ascending key order.
\<close>

definition ordered_map :: "fileCodeSourceMap \<Rightarrow> bool" where
  "ordered_map m = sorted_wrt (<) (map fst m)"



section \<open>Example reports\<close>

text \<open>
  Concrete inputs for the theorems below. \<open>origin_at f l s\<close> is an origin without parent
  in file \<open>f\<close>, on line \<open>l\<close>, covering the byte at \<open>s\<close>; \<open>new_report\<close> is a freshly
  constructed error report.
\<close>

definition origin_at :: "ptr \<Rightarrow> int \<Rightarrow> ptr \<Rightarrow> fileOrigin" where
  "origin_at f l s =
     \<lparr>file = f, position = \<lparr>line = l, lineStart = s, start = s, end = s + 1\<rparr>, up = 0\<rparr>"

definition new_report :: codePrinter_t where
  "new_report = codePrinter_t_new (origin_at 0 0 0) True ''E001''"

text \<open>Primary origin in file 9; seven references in file 1 and three in file 2.\<close>

definition report_two_files :: codePrinter_t where
  "report_two_files =
     run onSameLine new_report
       (WithMessage (origin_at 9 1 10) ''primary'' #
        replicate 7 (WithSource (codeSource_t_new (origin_at 1 4 40) ''first file'')) @
        replicate 3 (WithSource (codeSource_t_new (origin_at 2 4 40) ''second file'')))"

text \<open>Primary origin on line 1 of file 1; seven references on line 4 of the same file.\<close>

definition report_origin_file :: codePrinter_t where
  "report_origin_file =
     run onSameLine new_report
       (WithMessage (origin_at 1 1 10) ''primary'' #
        replicate 7 (WithSource (codeSource_t_new (origin_at 1 4 40) ''same file'')))"

text \<open>Primary origin on line 1 of file 1; six references on that very line.\<close>

definition report_origin_line :: codePrinter_t where
  "report_origin_line =
     run onSameLine new_report
       (WithMessage (origin_at 1 1 10) ''primary'' #
        replicate 6 (WithSource (codeSource_t_new (origin_at 1 1 12) ''same line'')))"

text \<open>Primary origin in file 9; seven references in file 1.\<close>

definition report_seven :: codePrinter_t where
  "report_seven =
     run onSameLine new_report
       (WithMessage (origin_at 9 1 10) ''primary'' #
        replicate 7 (WithSource (codeSource_t_new (origin_at 1 4 40) ''other file'')))"

text \<open>
  Primary origin on line 1 of file 1; two references on that line and seven in file 2.
\<close>

definition report_mixed :: codePrinter_t where
  "report_mixed =
     run onSameLine new_report
       (WithMessage (origin_at 1 1 10) ''primary'' #
        replicate 2 (WithSource (codeSource_t_new (origin_at 1 1 12) ''same line'')) @
        replicate 7 (WithSource (codeSource_t_new (origin_at 2 4 40) ''other file'')))"

text \<open>
  Primary origin on line 5 of file 1, at offset 50; one reference before it on line 2 and
  one after it on line 8 of the same file, none on line 5.
\<close>

definition report_no_origin_line :: codePrinter_t where
  "report_no_origin_line =
     run onSameLine new_report
       [WithMessage (origin_at 1 5 50) ''primary'',
        WithSource (codeSource_t_new (origin_at 1 2 20) ''before''),
        WithSource (codeSource_t_new (origin_at 1 8 80) ''after'')]"

text \<open>The same primary origin; one reference before it on line 2 and one on line 5.\<close>

definition report_with_divider :: codePrinter_t where
  "report_with_divider =
     run onSameLine new_report
       [WithMessage (origin_at 1 5 50) ''primary'',
        WithSource (codeSource_t_new (origin_at 1 2 20) ''before''),
        WithSource (codeSource_t_new (origin_at 1 5 52) ''same line'')]"




section \<open>The comparison of references\<close>


text \<open>
  C1. The comparison is claimed to be the strict lexicographic order on (file, start offset,
  insertion index). The code returns \<open>true\<close> for every pair whose keys differ, in both
  directions: for a reference at offset 45 with index 0 and one at offset 33 with index 1
  in the same file, each is "less" than the other, although the first is not before the
  second in the order of the spec.
\<close>

theorem less_codeSource_t_both_ways:
  "less_codeSource_t
     (codeSource_t_indexed 0
        \<lparr>file = 1, position = \<lparr>line = 2, lineStart = 40, start = 45, end = 46\<rparr>, up = 0\<rparr> ''a'')
     (codeSource_t_indexed 1
        \<lparr>file = 1, position = \<lparr>line = 1, lineStart = 30, start = 33, end = 34\<rparr>, up = 0\<rparr> ''b'')
   \<and> less_codeSource_t
     (codeSource_t_indexed 1
        \<lparr>file = 1, position = \<lparr>line = 1, lineStart = 30, start = 33, end = 34\<rparr>, up = 0\<rparr> ''b'')
     (codeSource_t_indexed 0
        \<lparr>file = 1, position = \<lparr>line = 2, lineStart = 40, start = 45, end = 46\<rparr>, up = 0\<rparr> ''a'')
   \<and> \<not> spec_before
     (codeSource_t_indexed 0
        \<lparr>file = 1, position = \<lparr>line = 2, lineStart = 40, start = 45, end = 46\<rparr>, up = 0\<rparr> ''a'')
     (codeSource_t_indexed 1
        \<lparr>file = 1, position = \<lparr>line = 1, lineStart = 30, start = 33, end = 34\<rparr>, up = 0\<rparr> ''b'')"
  by (simp add: less_codeSource_t_def less_value_def spec_before_def codeSource_t_indexed_def)

section \<open>The sidebar width\<close>

lemma sdiv_10_nonneg: "0 \<le> (l::int) \<Longrightarrow> l sdiv 10 = l div 10"
  by (simp add: signed_divide_int_def sgn_if)

lemma length_show_nat_step:
  assumes "0 < (l::int)"
  shows "int (length (show_nat (nat l))) =
           1 + (if l div 10 = 0 then 0 else int (length (show_nat (nat (l div 10)))))"
proof (cases "l < 10")
  case True
  with assms have "nat l < 10" by linarith
  with True assms show ?thesis by (subst show_nat.simps) simp
next
  case False
  then have "nat l div 10 = nat (l div 10)" "\<not> nat l < 10" by (simp_all add: nat_div_distrib)
  with False show ?thesis by (subst show_nat.simps) auto
qed

lemma sidebar_loop_nonneg:
  "0 \<le> l \<Longrightarrow> sidebar_loop w l = w + (if l = 0 then 0 else int (length (show_nat (nat l))))"
proof (induction w l rule: sidebar_loop.induct)
  case (1 w l)
  show ?case
  proof (cases "l = 0")
    case True
    then show ?thesis by (simp add: sidebar_loop.simps)
  next
    case False
    with "1.prems" have pos: "0 < l" by simp
    have step: "sidebar_loop w l = sidebar_loop (w + 1) (l div 10)"
      using False "1.prems" by (subst sidebar_loop.simps) (simp add: sdiv_10_nonneg)
    have ih: "sidebar_loop (w + 1) (l div 10) =
                w + 1 + (if l div 10 = 0 then 0 else int (length (show_nat (nat (l div 10)))))"
      using "1.IH" [OF False] "1.prems" by (simp add: sdiv_10_nonneg)
    show ?thesis using step ih length_show_nat_step [OF pos] False by simp
  qed
qed

lemma getSidebarWidth_pos:
  assumes "0 < m"
  shows "getSidebarWidth m = 2 + int (length (show_nat (nat m)))"
proof -
  have "0 \<le> m div 10" using assms by simp
  then show ?thesis
    using assms length_show_nat_step [OF assms]
    by (simp add: getSidebarWidth_def sdiv_10_nonneg sidebar_loop_nonneg)
qed

lemma length_show_nat_bounds:
  "10 ^ k \<le> n \<Longrightarrow> n < 10 ^ (k + 1) \<Longrightarrow> length (show_nat n) = k + 1"
proof (induction k arbitrary: n)
  case 0
  then show ?case by (subst show_nat.simps) simp
next
  case (Suc k)
  from Suc.prems have ge: "10 \<le> n"
    by (meson le_trans one_le_numeral one_le_power power_increasing self_le_power Suc_le_eq
        zero_less_Suc)
  from Suc.prems have "10 ^ k \<le> n div 10" "n div 10 < 10 ^ (k + 1)"
    by (simp_all add: less_mult_imp_div_less div_le_mono2 Suc_le_eq)
  then have "length (show_nat (n div 10)) = k + 1" by (rule Suc.IH)
  with ge show ?case by (subst show_nat.simps) simp
qed

lemma sidebar_loop_ge: "w \<le> sidebar_loop w l"
proof (induction w l rule: sidebar_loop.induct)
  case (1 w l)
  then show ?case by (subst sidebar_loop.simps) auto
qed

lemma getSidebarWidth_ge_3: "3 \<le> getSidebarWidth maxLine"
  by (simp add: getSidebarWidth_def sidebar_loop_ge)

text \<open>
  C8. For every positive maximum line number the sidebar width is 3 plus one column for each
  decimal digit beyond the first: the number of digits is the length of the decimal
  representation, and it is \<open>k + 1\<close> exactly for the numbers from \<open>10^k\<close> up to
  \<open>10^(k+1) - 1\<close>.
\<close>

theorem getSidebarWidth_decimal_digits:
  assumes "0 < maxLine"
  shows "getSidebarWidth maxLine = 3 + (int (length (show_int maxLine)) - 1) \<and>
         (\<forall>k. 10 ^ k \<le> maxLine \<and> maxLine < 10 ^ (k + 1) \<longrightarrow>
              getSidebarWidth maxLine = 3 + int k)"
proof
  show "getSidebarWidth maxLine = 3 + (int (length (show_int maxLine)) - 1)"
    using assms by (simp add: getSidebarWidth_pos show_int_def)
next
  show "\<forall>k. 10 ^ k \<le> maxLine \<and> maxLine < 10 ^ (k + 1) \<longrightarrow>
            getSidebarWidth maxLine = 3 + int k"
  proof (intro allI impI)
    fix k
    assume b: "10 ^ k \<le> maxLine \<and> maxLine < 10 ^ (k + 1)"
    have "int (10 ^ k) \<le> maxLine" "maxLine < int (10 ^ (k + 1))" using b by simp_all
    then have "10 ^ k \<le> nat maxLine" "nat maxLine < 10 ^ (k + 1)"
      using assms by (simp_all add: le_nat_iff nat_less_iff)
    then have "length (show_nat (nat maxLine)) = k + 1" by (rule length_show_nat_bounds)
    then show "getSidebarWidth maxLine = 3 + int k"
      using assms by (simp add: getSidebarWidth_pos)
  qed
qed

text \<open>The widths for the line numbers 5, 42 and 523 are 3, 4 and 5.\<close>

theorem getSidebarWidth_decimal_digits_witness:
  "(0::int) < 5 \<and> (10::int) ^ 0 \<le> 5 \<and> (5::int) < 10 ^ (0 + 1) \<and>
     getSidebarWidth 5 = 3 + int 0 \<and>
   (0::int) < 42 \<and> (10::int) ^ 1 \<le> 42 \<and> (42::int) < 10 ^ (1 + 1) \<and>
     getSidebarWidth 42 = 3 + int 1 \<and>
   (0::int) < 523 \<and> (10::int) ^ 2 \<le> 523 \<and> (523::int) < 10 ^ (2 + 1) \<and>
     getSidebarWidth 523 = 3 + int 2 \<and>
   getSidebarWidth 523 = 3 + (int (length (show_int 523)) - 1)"
  using getSidebarWidth_decimal_digits [of 5, THEN conjunct2, rule_format, of 0]
        getSidebarWidth_decimal_digits [of 42, THEN conjunct2, rule_format, of 1]
        getSidebarWidth_decimal_digits [of 523, THEN conjunct2, rule_format, of 2]
        getSidebarWidth_decimal_digits [of 523, THEN conjunct1]
  by simp

section \<open>The suppression step\<close>

lemma total_sources_Nil: "total_sources [] = 0"
  by (simp add: total_sources_def)

lemma total_sources_Cons: "total_sources ((f, b) # m) = length b + total_sources m"
  by (simp add: total_sources_def)

lemma total_sources_concat: "total_sources m = length (concat (map snd m))"
  by (induction m) (auto simp: total_sources_def)

lemma supress_loop_error: "supress_loop c a m = Inl e \<Longrightarrow> e = ErasedIterator"
proof (induction m arbitrary: c a)
  case Nil
  then show ?case by simp
next
  case (Cons x m)
  obtain f b where x: "x = (f, b)" by (cases x)
  show ?case
  proof (cases "int (length b) \<le> a")
    case True
    with Cons.prems have "supress_loop c (a - int (length b)) m = Inl e"
      by (simp add: x Let_def split: sum.splits prod.splits)
    then show ?thesis by (rule Cons.IH)
  next
    case False
    with Cons.prems show ?thesis
      by (simp add: x Let_def split: if_splits)
  qed
qed

lemma supress_loop_returns:
  assumes "0 \<le> a" and "supress_loop c a m = Inr (c', kept)"
  shows "map fst kept = map fst m"
    and "concat (map snd kept) = take (nat a) (concat (map snd m))"
    and "c' = (if int (total_sources m) \<le> a then c else int (total_sources m) - a)"
    and "supress_loop c'' a kept = Inr (c'', kept)"
  using assms
proof (induction m arbitrary: a c' kept)
  case Nil
  {
    case 1 then show ?case by simp
  next
    case 2 then show ?case by simp
  next
    case 3 then show ?case by (simp add: total_sources_def)
  next
    case 4 then show ?case by simp
  }
next
  case (Cons x m)
  obtain f b where x: "x = (f, b)" by (cases x)
  {
    case 1
    show ?case
    proof (cases "int (length b) \<le> a")
      case True
      with 1 obtain kept' where r: "supress_loop c (a - int (length b)) m = Inr (c', kept')"
        and k: "kept = (f, b) # kept'"
        by (auto simp: x Let_def split: sum.splits)
      from True have "0 \<le> a - int (length b)" by simp
      from Cons.IH(1) [OF this r] k show ?thesis by (simp add: x)
    next
      case False
      with 1 show ?thesis by (auto simp: x Let_def split: if_splits)
    qed
  next
    case 2
    show ?case
    proof (cases "int (length b) \<le> a")
      case True
      with 2 obtain kept' where r: "supress_loop c (a - int (length b)) m = Inr (c', kept')"
        and k: "kept = (f, b) # kept'"
        by (auto simp: x Let_def split: sum.splits)
      from True have nn: "0 \<le> a - int (length b)" by simp
      have n: "nat (a - int (length b)) = nat a - length b" by simp
      from True have "length b \<le> nat a" by simp
      with Cons.IH(2) [OF nn r] k n show ?thesis by (simp add: x)
    next
      case False
      with 2 show ?thesis by (auto simp: x Let_def split: if_splits)
    qed
  next
    case 3
    show ?case
    proof (cases "int (length b) \<le> a")
      case True
      with 3 obtain kept' where r: "supress_loop c (a - int (length b)) m = Inr (c', kept')"
        by (auto simp: x Let_def split: sum.splits)
      from True have nn: "0 \<le> a - int (length b)" by simp
      from Cons.IH(3) [OF nn r] show ?thesis
        by (auto simp: x total_sources_Cons)
    next
      case False
      with 3 show ?thesis
        by (auto simp: x Let_def total_sources_Cons total_sources_Nil split: if_splits)
    qed
  next
    case 4
    show ?case
    proof (cases "int (length b) \<le> a")
      case True
      with 4 obtain kept' where r: "supress_loop c (a - int (length b)) m = Inr (c', kept')"
        and k: "kept = (f, b) # kept'"
        by (auto simp: x Let_def split: sum.splits)
      from True have nn: "0 \<le> a - int (length b)" by simp
      from Cons.IH(4) [OF nn r] k True show ?thesis by (simp add: x Let_def)
    next
      case False
      with 4 show ?thesis by (auto simp: x Let_def split: if_splits)
    qed
  }
qed

lemma supress_loop_fits:
  "int (total_sources m) \<le> a \<Longrightarrow> supress_loop c a m = Inr (c, m)"
proof (induction m arbitrary: a)
  case Nil
  then show ?case by simp
next
  case (Cons x m)
  obtain f b where x: "x = (f, b)" by (cases x)
  from Cons.prems have "int (total_sources m) \<le> a - int (length b)" "int (length b) \<le> a"
    by (simp_all add: x total_sources_Cons)
  with Cons.IH [of "a - int (length b)"] show ?case by (simp add: x Let_def)
qed

lemma supressSources_returns:
  assumes "supressSources p = Inr (c, p1)"
  shows "p1 = p\<lparr>sources := sources p1\<rparr>"
    and "map fst (sources p1) = map fst (sources p)"
    and "concat (map snd (sources p1)) =
           take (nat DEFAULT_MAX_ERRORS_DISPLAYED) (concat (map snd (sources p)))"
    and "c = int (total_sources (sources p)) - int (total_sources (sources p1))"
    and "supressSources p1 = Inr (0, p1)"
proof -
  from assms obtain kept where
    l: "supress_loop 0 DEFAULT_MAX_ERRORS_DISPLAYED (sources p) = Inr (c, kept)"
    and p1: "p1 = p\<lparr>sources := kept\<rparr>"
    by (auto simp: supressSources_def split: sum.splits)
  have nn: "0 \<le> DEFAULT_MAX_ERRORS_DISPLAYED" by (simp add: DEFAULT_MAX_ERRORS_DISPLAYED_def)
  note r = supress_loop_returns [OF nn l]
  show "p1 = p\<lparr>sources := sources p1\<rparr>" using p1 by simp
  show "map fst (sources p1) = map fst (sources p)" using r(1) p1 by simp
  show k: "concat (map snd (sources p1)) =
           take (nat DEFAULT_MAX_ERRORS_DISPLAYED) (concat (map snd (sources p)))"
    using r(2) p1 by simp
  have "int (total_sources (sources p1)) =
          min (int (total_sources (sources p))) DEFAULT_MAX_ERRORS_DISPLAYED"
    using nn by (simp add: total_sources_concat k)
  then show "c = int (total_sources (sources p)) - int (total_sources (sources p1))"
    using r(3) by (simp add: min_def)
  show "supressSources p1 = Inr (0, p1)"
    using r(4) [of 0] p1 by (simp add: supressSources_def)
qed

lemma supressSources_error: "supressSources p = Inl e \<Longrightarrow> e = ErasedIterator"
  by (auto simp: supressSources_def split: sum.splits dest: supress_loop_error)

lemma supressSources_frame:
  "supressSources (p\<lparr>originLineSources := other, origin := org\<rparr>) =
     map_sum id (\<lambda>r. (fst r, (snd r)\<lparr>originLineSources := other, origin := org\<rparr>))
       (supressSources p)"
  by (simp add: supressSources_def split: sum.splits)

lemma supressSources_fits:
  "int (total_sources (sources p)) \<le> DEFAULT_MAX_ERRORS_DISPLAYED \<Longrightarrow>
   supressSources p = Inr (0, p)"
  by (simp add: supressSources_def supress_loop_fits)

text \<open>
  C2. The returned count is claimed to be the number of dropped references summed over all
  files, the buckets dropped whole after the budget is exhausted included. For seven
  references in one file followed by three in a second file, ten in all, the step returns no
  count: after cutting the first bucket it erases the entry of the second file and goes on
  using the iterator that pointed to it. A bucket is dropped whole on this path only; where
  the step does return, every bucket is still in the map and the count is the number cut
  from the last one.
\<close>

theorem supressSources_erased_iterator:
  "supressSources report_two_files = Inl ErasedIterator \<and>
   total_sources (sources report_two_files) = 10"
  unfolding report_two_files_def new_report_def by code_simp



text \<open>
  C3, amended: the suppression step leaves the origin-line reference set whole, and its
  budget depends neither on that set nor on the primary origin. Whenever the step returns,
  every file of the map still has its bucket, the references kept are exactly the first
  \<open>DEFAULT_MAX_ERRORS_DISPLAYED\<close> references of the map in file-iteration order, whichever
  file they belong to, the count is the number of references dropped, and the same count
  and buckets result for any other origin-line set and primary origin. The bucket of the
  primary origin's own file is thus depleted and cut like any other.
\<close>

theorem supressSources_first_five:
  assumes "supressSources p = Inr (c, p1)"
  shows "originLineSources p1 = originLineSources p \<and>
         map fst (sources p1) = map fst (sources p) \<and>
         concat (map snd (sources p1)) =
           take (nat DEFAULT_MAX_ERRORS_DISPLAYED) (concat (map snd (sources p))) \<and>
         c = int (total_sources (sources p)) - int (total_sources (sources p1)) \<and>
         supressSources (p\<lparr>originLineSources := other, origin := org\<rparr>) =
           Inr (c, p1\<lparr>originLineSources := other, origin := org\<rparr>)"
proof -
  note r = supressSources_returns [OF assms]
  have "originLineSources p1 = originLineSources p"
    by (subst r(1)) simp
  moreover have "supressSources (p\<lparr>originLineSources := other, origin := org\<rparr>) =
           Inr (c, p1\<lparr>originLineSources := other, origin := org\<rparr>)"
    using assms by (simp add: supressSources_frame)
  ultimately show ?thesis using r(2,3,4) by simp
qed

text \<open>
  Seven references on another line of the origin's file: the first five are kept.
\<close>

theorem supressSources_first_five_witness:
  "supressSources report_origin_file =
     Inr (2, report_origin_file
               \<lparr>sources := [(1, take 5 (map_find 1 (sources report_origin_file)))]\<rparr>) \<and>
   file (origin report_origin_file) = 1 \<and>
   length (concat (map snd (sources report_origin_file))) = 7 \<and>
   concat (map snd [(1, take 5 (map_find 1 (sources report_origin_file)))]) =
     take (nat DEFAULT_MAX_ERRORS_DISPLAYED) (concat (map snd (sources report_origin_file))) \<and>
   (2::int) = int (total_sources (sources report_origin_file)) -
       int (total_sources [(1, take 5 (map_find 1 (sources report_origin_file)))])"
proof -
  have h: "supressSources report_origin_file =
     Inr (2, report_origin_file
               \<lparr>sources := [(1, take 5 (map_find 1 (sources report_origin_file)))]\<rparr>)"
    unfolding report_origin_file_def new_report_def by code_simp
  have o: "file (origin report_origin_file) = 1 \<and>
   length (concat (map snd (sources report_origin_file))) = 7 \<and>
   concat (map snd [(1, take 5 (map_find 1 (sources report_origin_file)))]) =
     take (nat DEFAULT_MAX_ERRORS_DISPLAYED) (concat (map snd (sources report_origin_file))) \<and>
   (2::int) = int (total_sources (sources report_origin_file)) -
       int (total_sources [(1, take 5 (map_find 1 (sources report_origin_file)))])"
    unfolding report_origin_file_def new_report_def by code_simp
  from supressSources_first_five [OF h] h o show ?thesis by blast
qed

text \<open>
  The claim as first stated has the bucket of the primary origin's own file left whole. With
  seven references on another line of the origin's file, the step cuts that bucket down to
  five.
\<close>

theorem supressSources_truncates_origin_file:
  "length (map_find (file (origin report_origin_file)) (sources report_origin_file)) = 7 \<and>
   (case supressSources report_origin_file of
      Inl e \<Rightarrow> False
    | Inr r \<Rightarrow> length (map_find (file (origin report_origin_file)) (sources (snd r))) = 5)"
  unfolding report_origin_file_def new_report_def by code_simp

section \<open>The reference collector\<close>

lemma set_insert_subset: "set (set_insert x xs) \<subseteq> insert x (set xs)"
  by (induction xs) auto

lemma set_insert_superset: "set xs \<subseteq> set (set_insert x xs)"
  by (induction xs) auto









lemma withMessage_fields:
  "originLineSources (withMessage p org msg) = originLineSources p"
  "sources (withMessage p org msg) = sources p"
  "sourceIndex (withMessage p org msg) = sourceIndex p"
  by (simp_all add: withMessage_def)







section \<open>The origin file section\<close>

lemma scanFileSources_first:
  "fst (scanFileSources sameLine dist org first maxLine fileSources) \<longleftrightarrow>
     first \<and> \<not> (\<exists>source \<in> set fileSources.
                   \<not> sameLine (codeSource_t.origin source) org \<and>
                   0 < dist org (codeSource_t.origin source))"
  by (induction fileSources arbitrary: first maxLine) auto

lemma addDivider_marker:
  "3 \<le> w \<Longrightarrow> addDivider ''^^^'' w = Inr [Str (replicate (nat (w - 1)) CHR '' ''), Str ''^^^'']"
  by (simp add: addDivider_def)

lemma spaces_not_marker: "replicate n CHR '' '' \<noteq> ''^^^''"
proof
  assume "replicate n CHR '' '' = ''^^^''"
  then have "set (replicate n CHR '' '') = set ''^^^''" by simp
  then show False by (cases n) auto
qed

lemma marker_not_in_addFileSection: "Str s \<notin> set (addFileSection f fileSources w n)"
  by (simp add: addFileSection_def)

lemma addOriginFileSection_snd:
  "snd (addOriginFileSection sameLine dist p sections) =
     p\<lparr>sources := map_modify (file (origin p)) id (sources p)\<rparr>"
  by (simp add: addOriginFileSection_def Let_def addDivider_marker getSidebarWidth_ge_3)

lemma addOriginFileSection_marker:
  "\<exists>rendered. fst (addOriginFileSection sameLine dist p sections) = Inr (sections @ [rendered]) \<and>
     (Str ''^^^'' \<in> set rendered \<longleftrightarrow>
        originLineSources p \<noteq> [] \<and> originFileSources p \<noteq> [] \<and>
        (\<exists>source \<in> set (originFileSources p).
           \<not> sameLine (codeSource_t.origin source) (origin p) \<and>
           0 < dist (origin p) (codeSource_t.origin source)))"
  by (auto simp add: addOriginFileSection_def Let_def addDivider_marker getSidebarWidth_ge_3
      scanFileSources_first originFileSources_def marker_not_in_addFileSection spaces_not_marker)

text \<open>
  C6, amended: \<open>addOriginFileSection\<close> always appends one section, and that section
  contains the divider marker if and only if the origin-line reference set is not empty, the
  origin file has references beyond that set, and the primary origin is not first in its
  file, that is some reference of the origin file's bucket is not on the primary's line and
  has a positive distance from the primary origin. In particular no divider is emitted when
  the origin file has no references besides the origin-line set.
\<close>

theorem addOriginFileSection_divider_iff:
  "case fst (addOriginFileSection sameLine dist p sections) of
     Inl e \<Rightarrow> False
   | Inr sections1 \<Rightarrow>
       butlast sections1 = sections \<and>
       (Str ''^^^'' \<in> set (last sections1) \<longleftrightarrow>
          originLineSources p \<noteq> [] \<and> originFileSources p \<noteq> [] \<and>
          (\<exists>source \<in> set (originFileSources p).
             \<not> sameLine (codeSource_t.origin source) (origin p) \<and>
             0 < dist (origin p) (codeSource_t.origin source)))"
  using addOriginFileSection_marker [of sameLine dist p sections] by auto

text \<open>
  A report with one reference on the primary's line and one before it on another line gets
  the divider between the two file sections.
\<close>

theorem addOriginFileSection_divider_witness:
  "originLineSources report_with_divider \<noteq> [] \<and>
   codeSource_t_indexed 0 (origin_at 1 2 20) ''before'' \<in> set (originFileSources report_with_divider) \<and>
   \<not> onSameLine (origin_at 1 2 20) (origin report_with_divider) \<and>
   0 < distanceTo (origin report_with_divider) (origin_at 1 2 20) \<and>
   fst (addOriginFileSection onSameLine distanceTo report_with_divider []) =
     Inr [[Str [CHR 0x0A],
           FileSection 1 [codeSource_t_indexed 1 (origin_at 1 5 52) ''same line''] 3 True,
           Str [CHR 0x0A], Str ''  '', Str ''^^^'', Str [CHR 0x0A],
           FileSection 1 [codeSource_t_indexed 0 (origin_at 1 2 20) ''before''] 3 False]]"
  using addOriginFileSection_divider_iff [where sameLine = onSameLine and dist = distanceTo
      and p = report_with_divider and sections = "[]"]
  unfolding report_with_divider_def new_report_def originFileSources_def
  by code_simp

text \<open>
  The claim as first stated asks for the divider whenever the origin file has further
  references and the primary origin is not first among them. With no reference on the
  primary's own line both conditions can hold, here through the reference on line 2, and
  the section consists of the file section alone.
\<close>

theorem addOriginFileSection_no_origin_line:
  "originLineSources report_no_origin_line = [] \<and>
   codeSource_t_indexed 0 (origin_at 1 2 20) ''before'' \<in> set (originFileSources report_no_origin_line) \<and>
   \<not> onSameLine (origin_at 1 2 20) (origin report_no_origin_line) \<and>
   0 < distanceTo (origin report_no_origin_line) (origin_at 1 2 20) \<and>
   fst (addOriginFileSection onSameLine distanceTo report_no_origin_line []) =
     Inr [[FileSection 1 [codeSource_t_indexed 1 (origin_at 1 8 80) ''after'',
                          codeSource_t_indexed 0 (origin_at 1 2 20) ''before''] 3 False]]"
  unfolding report_no_origin_line_def new_report_def originFileSources_def
  by code_simp

section \<open>Printing\<close>

lemma addOriginFileSection_ok:
  "\<exists>sections1. fst (addOriginFileSection sameLine dist p sections) = Inr sections1"
  by (simp add: addOriginFileSection_def Let_def addDivider_marker getSidebarWidth_ge_3)

lemma rendered_sources_append: "rendered_sources (a @ b) = rendered_sources a @ rendered_sources b"
  by (simp add: rendered_sources_def)

lemma rendered_sources_simps:
  "rendered_sources [] = []"
  "rendered_sources (Str t # ps) = rendered_sources ps"
  "rendered_sources (Stack u # ps) = rendered_sources ps"
  "rendered_sources (FileSection f s w n # ps) = s @ rendered_sources ps"
  by (simp_all add: rendered_sources_def)

lemma rendered_addFileSection: "rendered_sources (addFileSection f s w n) = s"
  by (simp add: addFileSection_def rendered_sources_simps)

lemma addOriginFileSection_rendered:
  "\<exists>rendered. fst (addOriginFileSection sameLine dist p sections) = Inr (sections @ [rendered]) \<and>
     rendered_sources rendered = originLineSources p @ originFileSources p"
  by (auto simp add: addOriginFileSection_def Let_def addDivider_marker getSidebarWidth_ge_3
      originFileSources_def rendered_sources_simps rendered_sources_append
      rendered_addFileSection)

lemma rendered_otherFileSections:
  "rendered_sources (concat (otherFileSections f m)) =
     concat (map snd (filter (\<lambda>e. fst e \<noteq> f) m))"
  by (induction m)
     (auto simp: rendered_sources_append rendered_addFileSection rendered_sources_simps)

lemma keys_map_modify: "fst ` set (map_modify f g m) = insert f (fst ` set m)"
proof (induction m)
  case Nil
  then show ?case by simp
next
  case (Cons x m)
  obtain k b where x: "x = (k, b)" by (cases x)
  show ?case
  proof (cases "f < k")
    case True
    then show ?thesis by (simp add: x)
  next
    case False
    show ?thesis
    proof (cases "k < f")
      case True
      with False Cons.IH show ?thesis by (simp add: x insert_commute)
    next
      case False
      with \<open>\<not> f < k\<close> have "k = f" by simp
      with False show ?thesis by (simp add: x)
    qed
  qed
qed

lemma ordered_map_modify: "ordered_map m \<Longrightarrow> ordered_map (map_modify f g m)"
proof (induction m)
  case Nil
  then show ?case by (simp add: ordered_map_def)
next
  case (Cons x m)
  obtain k b where x: "x = (k, b)" by (cases x)
  from Cons.prems have om: "ordered_map m" and lt: "\<forall>y \<in> set (map fst m). k < y"
    by (simp_all add: ordered_map_def x)
  show ?case
  proof (cases "f < k")
    case True
    with Cons.prems lt show ?thesis by (auto simp: ordered_map_def x)
  next
    case False
    show ?thesis
    proof (cases "k < f")
      case True
      have "\<forall>y \<in> fst ` set (map_modify f g m). k < y"
        using lt True by (simp add: keys_map_modify)
      with Cons.IH [OF om] True False show ?thesis
        by (simp add: ordered_map_def x)
    next
      case False
      with \<open>\<not> f < k\<close> Cons.prems show ?thesis by (simp add: ordered_map_def x)
    qed
  qed
qed

lemma ordered_map_distinct: "ordered_map m \<Longrightarrow> distinct (map fst m)"
  unfolding ordered_map_def by (induction m) auto

lemma map_find_Cons:
  "map_find f ((k, b) # m) = (if k = f then b else map_find f m)"
  by (simp add: map_find_def)

lemma map_find_absent: "f \<notin> set (map fst m) \<Longrightarrow> map_find f m = []"
  by (induction m) (auto simp: map_find_def)

lemma filter_absent: "f \<notin> set (map fst m) \<Longrightarrow> filter (\<lambda>e. fst e \<noteq> f) m = m"
  by (induction m) auto

lemma split_by_file:
  "distinct (map fst m) \<Longrightarrow>
   length (map_find f m) + length (concat (map snd (filter (\<lambda>e. fst e \<noteq> f) m))) =
     total_sources m"
proof (induction m)
  case Nil
  then show ?case by (simp add: map_find_def total_sources_def)
next
  case (Cons x m)
  obtain k b where x: "x = (k, b)" by (cases x)
  show ?case
  proof (cases "k = f")
    case True
    with Cons.prems have "f \<notin> set (map fst m)" by (simp add: x)
    then have "filter (\<lambda>e. fst e \<noteq> f) m = m" by (rule filter_absent)
    with True show ?thesis
      by (simp add: x map_find_Cons total_sources_Cons total_sources_concat)
  next
    case False
    with Cons.IH Cons.prems show ?thesis
      by (simp add: x map_find_Cons total_sources_Cons)
  qed
qed

lemma total_sources_map_modify_id: "total_sources (map_modify f id m) = total_sources m"
  by (induction m) (auto simp: total_sources_def)

lemma addSourceSections_returns:
  "\<exists>rendered.
     addSourceSections sameLine dist p [] =
       (Inr (rendered #
             otherFileSections (file (origin p)) (map_modify (file (origin p)) id (sources p))),
        p\<lparr>sources := map_modify (file (origin p)) id (sources p)\<rparr>) \<and>
     rendered_sources rendered = originLineSources p @ originFileSources p"
proof -
  obtain rendered where
    r: "fst (addOriginFileSection sameLine dist p []) = Inr ([] @ [rendered])"
    and s: "rendered_sources rendered = originLineSources p @ originFileSources p"
    using addOriginFileSection_rendered [of sameLine dist p "[]"] by blast
  obtain a b where ab: "addOriginFileSection sameLine dist p [] = (a, b)"
    by (cases "addOriginFileSection sameLine dist p []")
  with r have a: "a = Inr [rendered]" by simp
  from ab have b: "b = p\<lparr>sources := map_modify (file (origin p)) id (sources p)\<rparr>"
    using addOriginFileSection_snd [of sameLine dist p "[]"] by simp
  have "addSourceSections sameLine dist p [] =
       (Inr (rendered #
             otherFileSections (file (origin p)) (map_modify (file (origin p)) id (sources p))),
        p\<lparr>sources := map_modify (file (origin p)) id (sources p)\<rparr>)"
    by (simp add: addSourceSections_def ab a b)
  with s show ?thesis by blast
qed

lemma print_invalid:
  "\<not> valid (origin p) \<Longrightarrow>
   print valid sameLine dist yellow p =
     (Inl (OccaError ((if isError p then ''Error'' else ''Warning'') @
                      '' code is missing its origin'')), p)"
  by (simp add: print_def)

lemma print_erased:
  "valid (origin p) \<Longrightarrow> supressSources p = Inl e \<Longrightarrow>
   print valid sameLine dist yellow p = (Inl ErasedIterator, p)"
  by (frule supressSources_error) (simp add: print_def)

lemma print_returns:
  assumes "valid (origin p)" and "supressSources p = Inr (c, p1)"
  shows "\<exists>rendered out.
     print valid sameLine dist yellow p =
       (Inr out, p1\<lparr>sources := map_modify (file (origin p)) id (sources p1)\<rparr>) \<and>
     emitted_sections out =
       (rendered #
        otherFileSections (file (origin p)) (map_modify (file (origin p)) id (sources p1))) @
       [[Str (getSupressedMessage yellow p c)]] \<and>
     rendered_sources rendered = originLineSources p @ originFileSources p1"
proof -
  note f = supressSources_returns(1) [OF assms(2)]
  have o: "origin p1 = origin p" by (subst f) simp
  have l: "originLineSources p1 = originLineSources p" by (subst f) simp
  have e: "isError p1 = isError p" by (subst f) simp
  obtain rendered where
    a: "addSourceSections sameLine dist p1 [] =
       (Inr (rendered #
             otherFileSections (file (origin p1)) (map_modify (file (origin p1)) id (sources p1))),
        p1\<lparr>sources := map_modify (file (origin p1)) id (sources p1)\<rparr>)"
    and s: "rendered_sources rendered = originLineSources p1 @ originFileSources p1"
    using addSourceSections_returns [of sameLine dist p1] by blast
  have g: "getSupressedMessage yellow
             (p1\<lparr>sources := map_modify (file (origin p1)) id (sources p1)\<rparr>) c =
           getSupressedMessage yellow p c"
    by (simp add: getSupressedMessage_def e)
  show ?thesis
    using assms a s g o l
    by (auto simp add: print_def Let_def emitted_sections_def)
qed

lemma withSource_ordered_map:
  "ordered_map (sources p) \<Longrightarrow> ordered_map (sources (withSource sameLine p source))"
  by (simp add: withSource_def ordered_map_modify)

lemma run_ordered_map:
  "ordered_map (sources p) \<Longrightarrow> ordered_map (sources (run sameLine p ops))"
proof (induction ops arbitrary: p)
  case Nil
  then show ?case by (simp add: run_def)
next
  case (Cons op ops)
  have "ordered_map (sources (apply_operation sameLine p op))"
    using Cons.prems by (cases op) (simp_all add: withSource_ordered_map withMessage_fields)
  from Cons.IH [OF this] show ?case by (simp add: run_def)
qed

lemma built_ordered_map:
  "ordered_map (sources (run sameLine (codePrinter_t_new initial isErr c) ops))"
  by (rule run_ordered_map) (simp add: codePrinter_t_new_def ordered_map_def)

lemma print_outcomes:
  "(\<not> valid (origin p) \<longrightarrow>
      print valid sameLine dist yellow p =
        (Inl (OccaError ((if isError p then ''Error'' else ''Warning'') @
                         '' code is missing its origin'')), p)) \<and>
   (valid (origin p) \<longrightarrow>
      (case supressSources p of
         Inl e \<Rightarrow> fst (print valid sameLine dist yellow p) = Inl ErasedIterator
       | Inr r \<Rightarrow> (\<exists>out. fst (print valid sameLine dist yellow p) = Inr out)))"
proof (intro conjI impI)
  assume "\<not> valid (origin p)"
  then show "print valid sameLine dist yellow p =
        (Inl (OccaError ((if isError p then ''Error'' else ''Warning'') @
                         '' code is missing its origin'')), p)"
    by (rule print_invalid)
next
  assume v: "valid (origin p)"
  show "case supressSources p of
         Inl e \<Rightarrow> fst (print valid sameLine dist yellow p) = Inl ErasedIterator
       | Inr r \<Rightarrow> (\<exists>out. fst (print valid sameLine dist yellow p) = Inr out)"
  proof (cases "supressSources p")
    case (Inl e)
    with print_erased [where valid = valid, OF v Inl, of sameLine dist yellow] show ?thesis
      by simp
  next
    case (Inr r)
    obtain c p1 where r: "r = (c, p1)" by (cases r)
    from print_returns [where valid = valid, OF v Inr [unfolded r], of sameLine dist yellow]
    obtain out where "fst (print valid sameLine dist yellow p) = Inr out" by auto
    with Inr show ?thesis by auto
  qed
qed

text \<open>
  C9. A missing primary origin is claimed to be the only fatal condition of \<open>print\<close>. The
  report with a valid primary origin, seven references in one file and three in a second
  one does not reach the sink: the suppression step inside \<open>print\<close> erases the second
  file's entry and goes on using the iterator that pointed to it. For an invalid origin
  \<open>print\<close> does raise its error before anything else, and for a valid origin it reaches
  the sink whenever the suppression step returns (\<open>print_outcomes\<close>).
\<close>

theorem print_erased_iterator:
  "isValid (origin report_two_files) \<and>
   fst (print isValid onSameLine distanceTo id report_two_files) = Inl ErasedIterator"
  unfolding report_two_files_def new_report_def by code_simp

text \<open>
  C10, amended: for every report with a valid primary origin on which the suppression step
  returns, \<open>print\<close> reaches the sink; the per-file reference map then holds the smaller
  of \<open>DEFAULT_MAX_ERRORS_DISPLAYED\<close> and the number of references it held before, so at
  most five; the origin-line reference set is not counted against the budget: it is
  unchanged and rendered whole at the head of the origin file's section, and the references
  rendered in all sections number the size of that set plus what the map holds.
\<close>

theorem print_renders_budget:
  assumes "valid (origin p)" and "ordered_map (sources p)"
    and "supressSources p = Inr (c, p1)"
  shows "case print valid sameLine dist yellow p of
           (Inl e, p2) \<Rightarrow> False
         | (Inr out, p2) \<Rightarrow>
             int (total_sources (sources p2)) =
               min (int (total_sources (sources p))) DEFAULT_MAX_ERRORS_DISPLAYED \<and>
             originLineSources p2 = originLineSources p \<and>
             rendered_sources (hd (emitted_sections out)) =
               originLineSources p @ map_find (file (origin p)) (sources p2) \<and>
             length (rendered_sources (concat (emitted_sections out))) =
               length (originLineSources p) + total_sources (sources p2)"
proof -
  define m where "m = map_modify (file (origin p)) id (sources p1)"
  note s = supressSources_returns [OF assms(3)]
  have o: "origin p1 = origin p" by (subst s(1)) simp
  have l: "originLineSources p1 = originLineSources p" by (subst s(1)) simp
  obtain rendered out where
    pr: "print valid sameLine dist yellow p = (Inr out, p1\<lparr>sources := m\<rparr>)"
    and es: "emitted_sections out =
       (rendered # otherFileSections (file (origin p)) m) @
       [[Str (getSupressedMessage yellow p c)]]"
    and rs: "rendered_sources rendered = originLineSources p @ originFileSources p1"
    using print_returns [where valid = valid, OF assms(1,3), of sameLine dist yellow]
    unfolding m_def by blast
  have nn: "0 \<le> DEFAULT_MAX_ERRORS_DISPLAYED" by (simp add: DEFAULT_MAX_ERRORS_DISPLAYED_def)
  have "total_sources m = total_sources (sources p1)"
    by (simp add: m_def total_sources_map_modify_id)
  moreover have "int (total_sources (sources p1)) =
             min (int (total_sources (sources p))) DEFAULT_MAX_ERRORS_DISPLAYED"
    using nn by (simp add: total_sources_concat s(3))
  ultimately have t: "int (total_sources m) =
             min (int (total_sources (sources p))) DEFAULT_MAX_ERRORS_DISPLAYED"
    by simp
  have f: "originFileSources p1 = map_find (file (origin p)) m"
    by (simp add: originFileSources_def m_def o)
  have "ordered_map (sources p1)" using assms(2) s(2) by (simp add: ordered_map_def)
  then have "distinct (map fst m)"
    unfolding m_def by (intro ordered_map_distinct ordered_map_modify)
  then have sp: "length (map_find (file (origin p)) m) +
            length (concat (map snd (filter (\<lambda>e. fst e \<noteq> file (origin p)) m))) =
          total_sources m"
    by (rule split_by_file)
  have all: "rendered_sources (concat (emitted_sections out)) =
          originLineSources p @ map_find (file (origin p)) m @
          concat (map snd (filter (\<lambda>e. fst e \<noteq> file (origin p)) m))"
    by (simp add: es rendered_sources_append rs f rendered_otherFileSections
        rendered_sources_simps)
  have "length (rendered_sources (concat (emitted_sections out))) =
          length (originLineSources p) + total_sources m"
    using sp by (simp add: all)
  with t rs f l show ?thesis
    by (simp add: pr es)
qed

text \<open>
  Two references on the primary's line and seven in another file: five of the seven stay,
  and seven references are rendered.
\<close>

theorem print_renders_budget_witness:
  "isValid (origin report_mixed) \<and> ordered_map (sources report_mixed) \<and>
   supressSources report_mixed =
     Inr (2, report_mixed\<lparr>sources := [(2, take 5 (map_find 2 (sources report_mixed)))]\<rparr>) \<and>
   length (originLineSources report_mixed) = 2 \<and>
   total_sources (sources report_mixed) = 7 \<and>
   (case print isValid onSameLine distanceTo id report_mixed of
      (Inl e, p2) \<Rightarrow> False
    | (Inr out, p2) \<Rightarrow>
        total_sources (sources p2) = 5 \<and>
        originLineSources p2 = originLineSources report_mixed \<and>
        rendered_sources (hd (emitted_sections out)) = originLineSources report_mixed \<and>
        length (rendered_sources (concat (emitted_sections out))) = 7)"
proof -
  have v: "isValid (origin report_mixed)"
    unfolding report_mixed_def new_report_def by code_simp
  have m: "ordered_map (sources report_mixed)"
    unfolding report_mixed_def new_report_def by code_simp
  have h: "supressSources report_mixed =
     Inr (2, report_mixed\<lparr>sources := [(2, take 5 (map_find 2 (sources report_mixed)))]\<rparr>)"
    unfolding report_mixed_def new_report_def by code_simp
  have e: "length (originLineSources report_mixed) = 2 \<and>
   total_sources (sources report_mixed) = 7 \<and>
   (case print isValid onSameLine distanceTo id report_mixed of
      (Inl e, p2) \<Rightarrow> False
    | (Inr out, p2) \<Rightarrow>
        total_sources (sources p2) = 5 \<and>
        originLineSources p2 = originLineSources report_mixed \<and>
        rendered_sources (hd (emitted_sections out)) = originLineSources report_mixed \<and>
        length (rendered_sources (concat (emitted_sections out))) = 7)"
    unfolding report_mixed_def new_report_def by code_simp
  from print_renders_budget [where valid = isValid, OF v m h, of onSameLine distanceTo id] v m h e
  show ?thesis by blast
qed

text \<open>
  The claim as first stated also counts the origin-line reference set. A report with six
  references on the primary origin's line keeps all six through \<open>print\<close>, more than the
  budget of five.
\<close>

theorem print_exceeds_budget:
  "isValid (origin report_origin_line) \<and>
   length (originLineSources (snd (print isValid onSameLine distanceTo id report_origin_line))) = 6 \<and>
   \<not> int (length (originLineSources
                   (snd (print isValid onSameLine distanceTo id report_origin_line))) +
          total_sources (sources
                   (snd (print isValid onSameLine distanceTo id report_origin_line))))
      \<le> DEFAULT_MAX_ERRORS_DISPLAYED"
  unfolding report_origin_line_def new_report_def
  by code_simp

text \<open>
  C4. The footer of an error report with two suppressed references is claimed to be the
  text "Suppressed 2 additional errors". For seven references in one file other than the
  origin's, the suppression step returns 2 and the footer that \<open>print\<close> appends is
  "Supressed 2 additional errors": the code writes the word with one p, so even under a
  styling function that changes nothing the footer is not the claimed string.
\<close>

theorem footer_spelling:
  "(case supressSources report_seven of Inl e \<Rightarrow> False | Inr r \<Rightarrow> fst r = 2) \<and>
   getSupressedMessage id report_seven 2 = ''Supressed 2 additional errors'' \<and>
   getSupressedMessage id report_seven 2 \<noteq> ''Suppressed 2 additional errors'' \<and>
   (case fst (print isValid onSameLine distanceTo id report_seven) of
      Inl e \<Rightarrow> False
    | Inr out \<Rightarrow> last (emitted_sections out) = [Str ''Supressed 2 additional errors''])"
  unfolding report_seven_def new_report_def
  by code_simp

text \<open>
  Apart from the spelling of its first word the footer is as described: for a positive count
  \<open>n\<close> it is the styling function applied to "Supressed \<open>n\<close> additional " followed by
  "error" or "warning" according to the severity flag, with an "s" appended exactly when
  \<open>n > 1\<close>; and when \<open>n\<close> is what the suppression step returns, that footer is the last
  section \<open>print\<close> hands to the sink.
\<close>

theorem footer_text:
  assumes "0 < n"
  shows "getSupressedMessage yellow p n =
           yellow (''Supressed '' @ show_int n @ '' additional '' @
                   (if isError p then ''error'' else ''warning'') @
                   (if 1 < n then ''s'' else [])) \<and>
         (valid (origin p) \<and> supressSources p = Inr (n, p1) \<longrightarrow>
            (case fst (print valid sameLine dist yellow p) of
               Inl e \<Rightarrow> False
             | Inr out \<Rightarrow>
                 last (emitted_sections out) =
                   [Str (yellow (''Supressed '' @ show_int n @ '' additional '' @
                           (if isError p then ''error'' else ''warning'') @
                           (if 1 < n then ''s'' else [])))]))"
proof (intro conjI impI)
  show msg: "getSupressedMessage yellow p n =
           yellow (''Supressed '' @ show_int n @ '' additional '' @
                   (if isError p then ''error'' else ''warning'') @
                   (if 1 < n then ''s'' else []))"
    using assms by (simp add: getSupressedMessage_def)
  assume a: "valid (origin p) \<and> supressSources p = Inr (n, p1)"
  then have v: "valid (origin p)" and n: "supressSources p = Inr (n, p1)" by simp_all
  have "case fst (print valid sameLine dist yellow p) of
               Inl e \<Rightarrow> False
             | Inr out \<Rightarrow>
                 last (emitted_sections out) = [Str (getSupressedMessage yellow p n)]"
    using print_returns [where valid = valid, OF v n, of sameLine dist yellow] by auto
  then show "case fst (print valid sameLine dist yellow p) of
               Inl e \<Rightarrow> False
             | Inr out \<Rightarrow>
                 last (emitted_sections out) =
                   [Str (yellow (''Supressed '' @ show_int n @ '' additional '' @
                           (if isError p then ''error'' else ''warning'') @
                           (if 1 < n then ''s'' else [])))]"
    unfolding msg .
qed

theorem footer_text_witness:
  "(0::int) < 2 \<and> isValid (origin report_seven) \<and>
   supressSources report_seven =
     Inr (2, report_seven\<lparr>sources := [(1, take 5 (map_find 1 (sources report_seven)))]\<rparr>) \<and>
   getSupressedMessage id report_seven 2 = ''Supressed 2 additional errors'' \<and>
   (case fst (print isValid onSameLine distanceTo id report_seven) of
      Inl e \<Rightarrow> False
    | Inr out \<Rightarrow> last (emitted_sections out) = [Str ''Supressed 2 additional errors''])"
proof -
  have e: "(0::int) < 2 \<and> isValid (origin report_seven) \<and>
   supressSources report_seven =
     Inr (2, report_seven\<lparr>sources := [(1, take 5 (map_find 1 (sources report_seven)))]\<rparr>) \<and>
   getSupressedMessage id report_seven 2 = ''Supressed 2 additional errors'' \<and>
   (case fst (print isValid onSameLine distanceTo id report_seven) of
      Inl e \<Rightarrow> False
    | Inr out \<Rightarrow> last (emitted_sections out) = [Str ''Supressed 2 additional errors''])"
    unfolding report_seven_def new_report_def by code_simp
  from footer_text [where n = 2 and yellow = id and p = report_seven and valid = isValid
      and sameLine = onSameLine and dist = distanceTo] e
  show ?thesis by blast
qed

end
